theory Spec2Isabelle
  imports Complex_Main "HOL-Library.Word" "HOL-Library.Monad_Syntax"
begin

section \<open>The heuristic scoring pipeline of script.js\<close>

text \<open>
  The development embeds \<^verbatim>\<open>computeScoreFromBitmap\<close>, \<^verbatim>\<open>clamp\<close> and the verdict
  computed by \<^verbatim>\<open>showResult\<close> (the second, heuristic script of \<^verbatim>\<open>src/script.js\<close>,
  lines 204 to 292).

  Conventions of the embedding.
  \<^item> The downscale step (lines 206 to 209) yields integers that depend on how doubles
    round, so its quotient and its two products are rounded to double precision by
    \<open>fl\<close> (round to nearest, ties to even, 53 significant bits; exponents are not
    bounded, the values of this step being far from overflow and underflow).
  \<^item> Everywhere else a JavaScript number is a real number: the arithmetic is exact, the
    rounding of doubles and of the \<^verbatim>\<open>Float32Array\<close> holding the grayscale map is not
    modelled.
  \<^item> A division whose divisor is computed from the input, and the square root, return an
    \<open>option\<close>: \<open>None\<close> stands for the value that is not a finite number (JavaScript
    yields \<^verbatim>\<open>NaN\<close> or an infinity there), which the rest of the arithmetic propagates.
  \<^item> The canvas (\<^verbatim>\<open>OffscreenCanvas\<close>, \<^verbatim>\<open>drawImage\<close>, \<^verbatim>\<open>getImageData\<close>) is platform
    code. What it draws is a parameter, a function from the bitmap and the working
    dimensions to the RGBA bytes of the working buffer; that \<^verbatim>\<open>drawImage\<close> throws for a
    detached bitmap is part of the model.
  \<^item> \<^verbatim>\<open>Math.random\<close> is the global generator of the page: its state is the sequence of
    the values it is going to return.
\<close>

subsection \<open>Data\<close>

text \<open>
  The two attributes of an \<^verbatim>\<open>ImageBitmap\<close> that the code reads. Both are positive unless
  the bitmap is detached; a detached bitmap reports 0 for both.
\<close>

record imageBitmap =
  width :: nat
  height :: nat

record fileBlob =
  size_f :: nat

type_synonym imageData = "8 word list"

type_synonym canvas = "imageBitmap \<Rightarrow> nat \<Rightarrow> nat \<Rightarrow> imageData"

type_synonym generator = "nat \<Rightarrow> real"

text \<open>The exception that rejects the promise of the function.\<close>

datatype error = InvalidStateError

text \<open>The four local constants that the combination step reads (lines 230, 245, 254, 256).\<close>

record features =
  lapAvg :: real
  avgStd :: real
  avgSat :: real
  sizeKB :: real

subsection \<open>Primitives\<close>

text \<open>\<^verbatim>\<open>function clamp(v,a,b){ return Math.max(a, Math.min(b, v)); }\<close>\<close>

definition clamp :: "real \<Rightarrow> real \<Rightarrow> real \<Rightarrow> real" where
  "clamp v a b = max a (min b v)"

text \<open>\<^verbatim>\<open>Math.round\<close>: the nearest integer, a half rounded upwards.\<close>

definition Math_round :: "real \<Rightarrow> int" where
  "Math_round x = \<lfloor>x + 1 / 2\<rfloor>"

text \<open>The nearest integer, a half rounded to the even neighbour.\<close>

definition rne :: "real \<Rightarrow> int" where
  "rne t =
     (let f = \<lfloor>t\<rfloor>; d = t - of_int f
      in if d < 1 / 2 then f else if 1 / 2 < d then f + 1 else if even f then f else f + 1)"

text \<open>
  The double nearest to a real: with \<open>2\<^sup>e \<le> |x| < 2\<^sup>e\<^sup>+\<^sup>1\<close>, the multiple of \<open>2\<^sup>e\<^sup>-\<^sup>5\<^sup>2\<close>
  nearest to \<open>x\<close>, ties to even.
\<close>

definition fl :: "real \<Rightarrow> real" where
  "fl x =
     (if x = 0 then 0
      else let e = \<lfloor>log 2 \<bar>x\<bar>\<rfloor>;
               u = 2 powr (of_int (e - 52))
           in sgn x * (u * of_int (rne (\<bar>x\<bar> / u))))"

text \<open>\<^verbatim>\<open>Math.random()\<close>: returns the next value and advances the global generator.\<close>

definition Math_random :: "generator \<Rightarrow> real \<times> generator" where
  "Math_random g = (g 0, \<lambda>n. g (Suc n))"

definition jsdiv :: "real \<Rightarrow> real \<Rightarrow> real option" where
  "jsdiv a b = (if b = 0 then None else Some (a / b))"

definition jssqrt :: "real \<Rightarrow> real option" where
  "jssqrt x = (if x < 0 then None else Some (sqrt x))"

text \<open>One byte of the \<^verbatim>\<open>Uint8ClampedArray\<close>, read as a number.\<close>

definition byteAt :: "imageData \<Rightarrow> nat \<Rightarrow> real" where
  "byteAt data k = real (unat (data ! k))"

subsection \<open>Working dimensions (lines 206 to 209)\<close>

text \<open>
  \<^verbatim>\<open>scale = Math.min(1, maxDim / Math.max(imgBitmap.width, imgBitmap.height))\<close>.
  When both dimensions are 0 the quotient is \<^verbatim>\<open>Infinity\<close> and the minimum is 1.
\<close>

definition scaleOf :: "imageBitmap \<Rightarrow> real" where
  "scaleOf imgBitmap =
     (let maxDim = 512;
          m = max (width imgBitmap) (height imgBitmap)
      in if m = 0 then 1 else min 1 (fl (maxDim / real m)))"

definition workingDims :: "imageBitmap \<Rightarrow> nat \<times> nat" where
  "workingDims imgBitmap =
     (let scale = scaleOf imgBitmap;
          w = max 64 (Math_round (fl (real (width imgBitmap) * scale)));
          h = max 64 (Math_round (fl (real (height imgBitmap) * scale)))
      in (nat w, nat h))"

subsection \<open>The canvas (lines 210 to 214)\<close>

text \<open>
  \<^verbatim>\<open>ctx.drawImage(imgBitmap, 0, 0, w, h)\<close> throws \<^verbatim>\<open>InvalidStateError\<close> when the bitmap is
  detached, which is when its width or height is 0; the function does not catch it.
  Otherwise \<^verbatim>\<open>getImageData(0,0,w,h).data\<close> holds what the canvas has drawn.
\<close>

definition canvasData :: "canvas \<Rightarrow> imageBitmap \<Rightarrow> nat \<Rightarrow> nat \<Rightarrow> error + imageData" where
  "canvasData cv imgBitmap w h =
     (if width imgBitmap = 0 \<or> height imgBitmap = 0 then Inl InvalidStateError
      else Inr (cv imgBitmap w h))"

subsection \<open>Feature extraction (lines 215 to 256)\<close>

text \<open>The grayscale map (lines 216 to 220).\<close>

definition grayMap :: "imageData \<Rightarrow> nat \<Rightarrow> nat \<Rightarrow> real list" where
  "grayMap data w h =
     map (\<lambda>i. let r = byteAt data (i * 4);
                   g = byteAt data (i * 4 + 1);
                   b = byteAt data (i * 4 + 2)
               in 0.299 * r + 0.587 * g + 0.114 * b) [0..<w * h]"

text \<open>
  The Laplacian loop (lines 222 to 229); \<open>lapAt\<close> is the kernel of line 226. Both loops
  are empty below 3 rows or columns.
\<close>

definition lapAt :: "real list \<Rightarrow> nat \<Rightarrow> nat \<Rightarrow> real" where
  "lapAt gray w i =
     - 4 * gray ! i + gray ! (i - 1) + gray ! (i + 1) + gray ! (i - w) + gray ! (i + w)"

definition lapSumOf :: "real list \<Rightarrow> nat \<Rightarrow> nat \<Rightarrow> real" where
  "lapSumOf gray w h =
     fold (\<lambda>y. fold (\<lambda>x lapSum.
             let i = y * w + x;
                 v = lapAt gray w i
             in lapSum + \<bar>v\<bar>) [1..<w - 1]) [1..<h - 1] 0"

text \<open>
  The channel loop (lines 232 to 241): the state is the pair of the arrays
  \<^verbatim>\<open>mean\<close> and \<^verbatim>\<open>sq\<close>, both of length 3.
\<close>

definition channelSums :: "imageData \<Rightarrow> nat \<Rightarrow> real list \<times> real list" where
  "channelSums data N =
     fold (\<lambda>i. fold (\<lambda>cidx (mean, sq).
             let val = byteAt data (i * 4 + cidx)
             in (mean[cidx := mean ! cidx + val], sq[cidx := sq ! cidx + val * val]))
           [0..<3]) [0..<N] ([0, 0, 0], [0, 0, 0])"

text \<open>
  Lines 242 and 244 for one channel: \<^verbatim>\<open>mean[cidx] /= N\<close>, then
  \<^verbatim>\<open>Math.sqrt(Math.max(0, sq[cidx]/N - mean[cidx]*mean[cidx]))\<close>.
\<close>

definition stdOf :: "real \<Rightarrow> real \<Rightarrow> nat \<Rightarrow> real option" where
  "stdOf meanc sqc N =
     do {
       m \<leftarrow> jsdiv meanc (real N);
       q \<leftarrow> jsdiv sqc (real N);
       jssqrt (max 0 (q - m * m))
     }"

text \<open>
  The largest and the smallest channel of pixel \<open>i\<close>, scaled to \<open>[0, 1]\<close> (lines 249
  and 250).
\<close>

definition maxChan :: "imageData \<Rightarrow> nat \<Rightarrow> real" where
  "maxChan data i =
     (let r = byteAt data (i * 4) / 255;
          g = byteAt data (i * 4 + 1) / 255;
          b = byteAt data (i * 4 + 2) / 255
      in max (max r g) b)"

definition minChan :: "imageData \<Rightarrow> nat \<Rightarrow> real" where
  "minChan data i =
     (let r = byteAt data (i * 4) / 255;
          g = byteAt data (i * 4 + 1) / 255;
          b = byteAt data (i * 4 + 2) / 255
      in min (min r g) b)"

text \<open>The saturation of one pixel (line 251): \<^verbatim>\<open>maxv===0?0:(maxv - minv)/maxv\<close>.\<close>

definition satOf :: "imageData \<Rightarrow> nat \<Rightarrow> real option" where
  "satOf data i =
     (let maxv = maxChan data i;
          minv = minChan data i
      in if maxv = 0 then Some 0 else jsdiv (maxv - minv) maxv)"

text \<open>The saturation loop (lines 247 to 253).\<close>

definition satSumOf :: "imageData \<Rightarrow> nat \<Rightarrow> real option" where
  "satSumOf data N =
     fold (\<lambda>i satSum. do { s \<leftarrow> satSum; sat \<leftarrow> satOf data i; Some (s + sat) })
       [0..<N] (Some 0)"

definition extractFeatures :: "imageData \<Rightarrow> nat \<Rightarrow> nat \<Rightarrow> fileBlob \<Rightarrow> features option" where
  "extractFeatures data w h f =
     do {
       let gray = grayMap data w h;
       let lapSum = lapSumOf gray w h;
       lapAvg \<leftarrow> jsdiv lapSum (real_of_int ((int w - 2) * (int h - 2)));
       let N = w * h;
       let (mean, sq) = channelSums data N;
       std0 \<leftarrow> stdOf (mean ! 0) (sq ! 0) N;
       std1 \<leftarrow> stdOf (mean ! 1) (sq ! 1) N;
       std2 \<leftarrow> stdOf (mean ! 2) (sq ! 2) N;
       let avgStd = (std0 + std1 + std2) / 3;
       satSum \<leftarrow> satSumOf data N;
       avgSat \<leftarrow> jsdiv satSum (real N);
       let sizeKB = real (size_f f) / 1024;
       Some \<lparr>lapAvg = lapAvg, avgStd = avgStd, avgSat = avgSat, sizeKB = sizeKB\<rparr>
     }"

subsection \<open>Combination (lines 258 to 263)\<close>

definition lapNorm :: "features \<Rightarrow> real" where
  "lapNorm fs = clamp ((150 - lapAvg fs) / 150) 0 1"

definition stdNorm :: "features \<Rightarrow> real" where
  "stdNorm fs = clamp ((60 - avgStd fs) / 60) 0 1"

definition satNorm :: "features \<Rightarrow> real" where
  "satNorm fs = clamp ((avgSat fs - 0.25) / 0.5) 0 1"

definition sizeNorm :: "features \<Rightarrow> real" where
  "sizeNorm fs = clamp ((100 - min (sizeKB fs) 100) / 100) 0 1"

definition score :: "features \<Rightarrow> real" where
  "score fs =
     (lapNorm fs * 0.45 + stdNorm fs * 0.30 + satNorm fs * 0.10 + sizeNorm fs * 0.15) * 100"

text \<open>Line 263, with \<open>rnd\<close> the value that the call of \<^verbatim>\<open>Math.random()\<close> returned.\<close>

definition jitter :: "real \<Rightarrow> real" where
  "jitter rnd = (rnd - 0.5) * 6"

definition finalScore :: "features \<Rightarrow> real \<Rightarrow> real" where
  "finalScore fs rnd = clamp (score fs + jitter rnd) 0 100"

subsection \<open>The function and the verdict\<close>

text \<open>
  The result is \<open>Inl\<close> of the exception when the promise is rejected, and otherwise \<open>Inr\<close>
  of the number returned (\<open>None\<close> when it is not finite). An exception leaves the
  generator as it was: line 263 is not reached.
\<close>

definition computeScoreFromBitmap ::
  "canvas \<Rightarrow> imageBitmap \<Rightarrow> fileBlob \<Rightarrow> generator \<Rightarrow> (error + real option) \<times> generator" where
  "computeScoreFromBitmap cv imgBitmap f gen =
     (let (w, h) = workingDims imgBitmap
      in case canvasData cv imgBitmap w h of
           Inl e \<Rightarrow> (Inl e, gen)
         | Inr data \<Rightarrow>
             (let (rnd, gen') = Math_random gen
              in (Inr (map_option (\<lambda>fs. finalScore fs rnd) (extractFeatures data w h f)),
                  gen')))"

text \<open>\<^verbatim>\<open>const verdict = score>=90 ? 'AI-generated' : 'Likely real'\<close> (line 271).\<close>

definition verdict :: "real \<Rightarrow> string" where
  "verdict s = (if s \<ge> 90 then ''AI-generated'' else ''Likely real'')"

subsection \<open>Notions used to state the properties\<close>

text \<open>The scale factor in exact arithmetic.\<close>

definition exactScale :: "imageBitmap \<Rightarrow> real" where
  "exactScale imgBitmap = min 1 (512 / real (max (width imgBitmap) (height imgBitmap)))"

text \<open>The saturation of pixel \<open>i\<close> as a number.\<close>

definition satValue :: "imageData \<Rightarrow> nat \<Rightarrow> real" where
  "satValue data i =
     (if maxChan data i = 0 then 0 else (maxChan data i - minChan data i) / maxChan data i)"

text \<open>The population standard deviation of channel \<open>c\<close>, as line 244 computes it.\<close>

definition chanStd :: "imageData \<Rightarrow> nat \<Rightarrow> nat \<Rightarrow> real" where
  "chanStd data N c =
     sqrt (max 0 ((\<Sum>i<N. byteAt data (i * 4 + c) * byteAt data (i * 4 + c)) / real N
                  - ((\<Sum>i<N. byteAt data (i * 4 + c)) / real N)
                    * ((\<Sum>i<N. byteAt data (i * 4 + c)) / real N)))"

text \<open>Every one of the first \<open>N\<close> pixels has R = G = B = \<open>v\<close> (alpha is never read).\<close>

definition uniformImage :: "imageData \<Rightarrow> nat \<Rightarrow> 8 word \<Rightarrow> bool" where
  "uniformImage data N v =
     (\<forall>i\<in>{0..<N}. data ! (i * 4) = v \<and> data ! (i * 4 + 1) = v \<and> data ! (i * 4 + 2) = v)"

text \<open>
  Concrete inputs: a canvas whose working buffer is all zero, one whose bytes are all
  128, a 3 by 3 buffer whose first pixel is pure red and whose other pixels are black,
  and two states of the generator (every draw 0.5, every draw 0).
\<close>

definition blackCanvas :: canvas where
  "blackCanvas imgBitmap w h = replicate (4 * (w * h)) 0"

definition grayCanvas :: canvas where
  "grayCanvas imgBitmap w h = replicate (4 * (w * h)) 128"

definition redDot :: imageData where
  "redDot = [255, 0, 0, 255] @ replicate 32 0"

definition drawsHalf :: generator where
  "drawsHalf n = 1 / 2"

definition drawsZero :: generator where
  "drawsZero n = 0"

section \<open>Auxiliary facts\<close>

subsection \<open>Rounding to double precision\<close>

lemma rne_near: "\<bar>of_int (rne t) - t\<bar> \<le> 1 / 2"
proof -
  have "of_int \<lfloor>t\<rfloor> \<le> t" "t < of_int \<lfloor>t\<rfloor> + 1" by linarith+
  then show ?thesis by (auto simp: rne_def Let_def)
qed

lemma rne_of_int: "rne (of_int k) = k"
  by (simp add: rne_def)

lemma fl_pos_eq:
  assumes "0 < x"
  shows "fl x = 2 powr (of_int (\<lfloor>log 2 x\<rfloor> - 52))
                 * of_int (rne (x / 2 powr (of_int (\<lfloor>log 2 x\<rfloor> - 52))))"
  using assms by (simp add: fl_def Let_def)

lemma pow2_floor_log_le:
  assumes "0 < x"
  shows "2 powr (of_int \<lfloor>log 2 x\<rfloor>) \<le> x"
proof -
  have "of_int \<lfloor>log 2 x\<rfloor> \<le> log 2 x" by simp
  then have "2 powr (of_int \<lfloor>log 2 x\<rfloor>) \<le> 2 powr (log 2 x)" by simp
  then show ?thesis using assms by simp
qed

lemma powr_m53: "(2::real) powr (- 53) = 1 / 2 ^ 53"
proof -
  have "(2::real) powr (- 53) = inverse (2 powr 53)" by (rule powr_minus)
  also have "(2::real) powr 53 = 2 ^ 53" by (rule powr_numeral) simp
  finally show ?thesis by (simp only: inverse_eq_divide)
qed

lemma fl_error:
  assumes "0 < x"
  shows "\<bar>fl x - x\<bar> \<le> x / 2 ^ 53"
proof -
  define e where "e = \<lfloor>log 2 x\<rfloor>"
  define u :: real where "u = 2 powr (of_int (e - 52))"
  have u: "0 < u" by (simp add: u_def)
  have flx: "fl x = u * of_int (rne (x / u))"
    unfolding u_def e_def by (rule fl_pos_eq [OF assms])
  have "u * (x / u) = x" using u by simp
  then have "fl x - x = u * (of_int (rne (x / u)) - x / u)"
    by (simp only: flx right_diff_distrib)
  then have "\<bar>fl x - x\<bar> = u * \<bar>of_int (rne (x / u)) - x / u\<bar>"
    using u by (simp only: abs_mult abs_of_pos)
  also have "\<dots> \<le> u * (1 / 2)"
    using u rne_near [of "x / u"] by (intro mult_left_mono) simp_all
  also have "u * (1 / 2) = 2 powr (of_int e) * (2 powr (- 53))"
  proof -
    have "real_of_int (e - 52) = of_int e + (- 53) + 1" by simp
    then have "u = 2 powr (of_int e) * 2 powr (- 53) * 2 powr 1"
      unfolding u_def by (simp only: powr_add)
    then show ?thesis by simp
  qed
  also have "\<dots> \<le> x * (2 powr (- 53))"
    using pow2_floor_log_le [OF assms] unfolding e_def by (rule mult_right_mono) simp
  also have "\<dots> = x / 2 ^ 53"
    by (simp only: powr_m53 times_divide_eq_right mult_1_right)
  finally show ?thesis .
qed

lemma fl_exact:
  assumes "0 < k" "k < 2 ^ 53"
  shows "fl (of_int k * 2 powr (of_int j)) = of_int k * 2 powr (of_int j)"
proof -
  define x where "x = real_of_int k * 2 powr (of_int j)"
  have x: "0 < x" using assms by (simp add: x_def)
  define ek where "ek = \<lfloor>log 2 (real_of_int k)\<rfloor>"
  have "log 2 x = log 2 (real_of_int k) + of_int j"
    using assms by (simp add: x_def log_mult)
  then have e: "\<lfloor>log 2 x\<rfloor> = ek + j" by (simp add: ek_def)
  have "real_of_int k < real_of_int (2 ^ 53)"
    using assms(2) by (simp only: of_int_less_iff)
  also have "real_of_int (2 ^ 53) = 2 ^ 53" by simp
  also have "(2::real) ^ 53 = 2 powr 53" by (rule powr_numeral [symmetric]) simp
  finally have "real_of_int k < 2 powr 53" .
  moreover have "0 < real_of_int k" using assms(1) by simp
  ultimately have "log 2 (real_of_int k) < 53"
    by (subst log_less_iff) simp_all
  then have "ek < 53" by (simp add: ek_def floor_less_iff)
  then have n: "0 \<le> 52 - ek" by simp
  define u :: real where "u = 2 powr (of_int (ek + j - 52))"
  have "real_of_int j - real_of_int (ek + j - 52) = real_of_int (52 - ek)" by simp
  then have p: "(2::real) powr (of_int j) / 2 powr (of_int (ek + j - 52)) = 2 powr (of_int (52 - ek))"
    by (simp only: powr_diff [symmetric])
  have q: "(2::real) powr (of_int (52 - ek)) = 2 ^ nat (52 - ek)"
    using n by (subst powr_real_of_int) simp_all
  have "x / u = real_of_int k * (2 powr (of_int j) / 2 powr (of_int (ek + j - 52)))"
    by (simp add: x_def u_def)
  then have "x / u = of_int (k * 2 ^ nat (52 - ek))"
    by (simp only: p q) simp
  then have "of_int (rne (x / u)) = x / u" by (simp only: rne_of_int)
  then have "fl x = u * (x / u)"
    by (simp add: fl_pos_eq [OF x] e u_def)
  then show ?thesis by (simp add: u_def x_def)
qed

lemma fl_1: "fl 1 = 1"
  using fl_exact [of 1 0] by simp

lemma fl_half: "fl (1 / 2) = 1 / 2"
  using fl_exact [of 1 "- 1"] by (simp add: powr_minus)

lemma fl_nat: "0 < n \<Longrightarrow> n < 2 ^ 53 \<Longrightarrow> fl (real n) = real n"
  using fl_exact [of "int n" 0] by simp

lemma fl_129_half: "fl (129 / 2) = 129 / 2"
  using fl_exact [of 129 "- 1"] by (simp add: powr_minus)

lemma fl_scaled:
  assumes "2 ^ 52 \<le> x * 2 ^ p" "x * 2 ^ p < 2 ^ 53"
  shows "fl x = of_int (rne (x * 2 ^ p)) / 2 ^ p"
proof -
  have x: "0 < x"
  proof (rule ccontr)
    assume "\<not> 0 < x"
    then have "x * 2 ^ p \<le> 0" by (simp add: mult_le_0_iff)
    with assms(1) show False by (smt (verit) zero_less_power)
  qed
  have pw: "(2::real) powr (of_int (52 - int p)) = 2 ^ 52 / 2 ^ p"
  proof -
    have "(2::real) powr (of_int (52 - int p)) = 2 powr 52 / 2 powr (real p)"
      by (simp add: powr_diff)
    also have "(2::real) powr 52 = 2 ^ 52" by (rule powr_numeral) simp
    also have "(2::real) powr (real p) = 2 ^ p" by (simp add: powr_realpow)
    finally show ?thesis .
  qed
  have lo: "(2::real) powr (of_int (52 - int p)) \<le> x"
    unfolding pw using assms(1) by (simp add: field_simps)
  have h2: "(2::real) powr (of_int (52 - int p) + 1) = 2 * (2 ^ 52 / 2 ^ p)"
    by (simp only: powr_add pw) simp
  have hi: "x < (2::real) powr (of_int (52 - int p) + 1)"
    unfolding h2 using assms(2) by (simp add: field_simps)
  have e: "\<lfloor>log 2 x\<rfloor> = 52 - int p"
    using lo hi x by (subst floor_log_eq_powr_iff) simp_all
  have u: "(2::real) powr (of_int (52 - int p - 52)) = 1 / 2 ^ p"
    by (simp add: powr_minus powr_realpow inverse_eq_divide)
  show ?thesis
    unfolding fl_pos_eq [OF x] e u by simp
qed

lemma fl_upper: "0 < x \<Longrightarrow> fl x \<le> x + x / 2 ^ 53"
  using fl_error [of x] by linarith

lemma fl_lower: "0 < x \<Longrightarrow> x - x / 2 ^ 53 \<le> fl x"
  using fl_error [of x] by linarith

lemma fl_0: "fl 0 = 0"
  by (simp add: fl_def)

subsection \<open>The working dimensions\<close>

lemma scale_close:
  assumes "0 < max (width b) (height b)"
  shows "\<bar>scaleOf b - exactScale b\<bar> \<le> exactScale b / 2 ^ 53"
proof -
  define m where "m = max (width b) (height b)"
  have m: "0 < m" using assms by (simp add: m_def)
  have "max (width b) (height b) \<noteq> 0" using assms by linarith
  then have s: "scaleOf b = min 1 (fl (512 / real m))"
    by (simp only: scaleOf_def Let_def m_def if_False)
  have e: "exactScale b = min 1 (512 / real m)"
    by (simp add: exactScale_def m_def)
  consider "m \<le> 511" | "m = 512" | "513 \<le> m" by linarith
  then show ?thesis
  proof cases
    case 1
    then have "real m \<le> 511" by simp
    then have "512 / 511 \<le> 512 / real m"
      using m by (intro divide_left_mono) simp_all
    moreover have "512 / real m - (512 / real m) / 2 ^ 53 \<le> fl (512 / real m)"
      using m by (intro fl_lower) simp
    ultimately have "1 \<le> fl (512 / real m)" "1 \<le> 512 / real m" by simp_all
    then show ?thesis by (simp add: s e)
  next
    case 2
    then show ?thesis by (simp add: s e fl_1)
  next
    case 3
    then have "513 \<le> real m" by simp
    then have le: "512 / real m \<le> 512 / 513"
      using m by (intro divide_left_mono) simp_all
    have pos: "0 < 512 / real m" using m by simp
    have "fl (512 / real m) \<le> 512 / real m + (512 / real m) / 2 ^ 53"
      using pos by (rule fl_upper)
    with le have "fl (512 / real m) \<le> 1" by simp
    moreover have "512 / real m \<le> 1" using le by simp
    ultimately show ?thesis
      using fl_error [OF pos] by (simp add: s e)
  qed
qed

lemma exactScale_bounds:
  assumes "0 < max (width b) (height b)"
  shows "0 < exactScale b" "exactScale b \<le> 1"
    "real (max (width b) (height b)) * exactScale b \<le> 512"
proof -
  define m where "m = max (width b) (height b)"
  have m: "0 < real m" using assms by (simp add: m_def)
  show "0 < exactScale b" "exactScale b \<le> 1" using m by (simp_all add: exactScale_def m_def [symmetric])
  have "real m * min 1 (512 / real m) \<le> real m * (512 / real m)"
    using m by (intro mult_left_mono) simp_all
  then show "real (max (width b) (height b)) * exactScale b \<le> 512"
    using m by (simp add: exactScale_def m_def [symmetric])
qed

lemma prod_close:
  assumes "0 < max (width b) (height b)" "d \<le> max (width b) (height b)"
  shows "\<bar>fl (real d * scaleOf b) - real d * exactScale b\<bar> \<le> 1 / 2 ^ 42"
    and "real d * exactScale b \<le> 512"
proof -
  define s where "s = scaleOf b"
  define s0 where "s0 = exactScale b"
  define x where "x = real d * s0"
  define y where "y = real d * s"
  note eb = exactScale_bounds [OF assms(1), folded s0_def]
  have "real d * s0 \<le> real (max (width b) (height b)) * s0"
    using assms(2) eb(1) by (intro mult_right_mono) simp_all
  then show x512: "real d * exactScale b \<le> 512" using eb(3) by (simp add: s0_def)
  then have x5: "x \<le> 512" by (simp add: x_def s0_def)
  have x0: "0 \<le> x" using eb(1) by (simp add: x_def)
  have sc: "\<bar>s - s0\<bar> \<le> s0 / 2 ^ 53"
    using scale_close [OF assms(1)] by (simp add: s_def s0_def)
  have "\<bar>y - x\<bar> = real d * \<bar>s - s0\<bar>"
    by (simp add: y_def x_def right_diff_distrib [symmetric] abs_mult)
  also have "\<dots> \<le> real d * (s0 / 2 ^ 53)"
    using sc by (intro mult_left_mono) simp_all
  finally have yx: "\<bar>y - x\<bar> \<le> x / 2 ^ 53" by (simp add: x_def)
  have s_pos: "0 < s" using sc eb(1) 
  proof -
    have "s0 / 2 ^ 53 < s0" using eb(1) by simp
    with sc show ?thesis by linarith
  qed
  have y0: "0 \<le> y" using s_pos by (simp add: y_def)
  have fy: "\<bar>fl y - y\<bar> \<le> y / 2 ^ 53"
  proof (cases "y = 0")
    case True then show ?thesis by (simp add: fl_0)
  next
    case False
    with y0 have "0 < y" by simp
    then show ?thesis by (rule fl_error)
  qed
  have "x / 2 ^ 53 \<le> 512 / 2 ^ 53" using x5 by (intro divide_right_mono) simp_all
  moreover have "512 / 2 ^ 53 \<le> (1::real)" by simp
  ultimately have "y \<le> 513" using yx x5 by linarith
  then have "y / 2 ^ 53 \<le> 513 / 2 ^ 53" by (intro divide_right_mono) simp_all
  with \<open>x / 2 ^ 53 \<le> 512 / 2 ^ 53\<close> have "\<bar>fl y - x\<bar> \<le> 512 / 2 ^ 53 + 513 / 2 ^ 53"
    using yx fy by linarith
  also have "\<dots> \<le> 1 / 2 ^ 42" by simp
  finally show "\<bar>fl (real d * scaleOf b) - real d * exactScale b\<bar> \<le> 1 / 2 ^ 42"
    by (simp add: y_def x_def s_def s0_def)
qed

lemma Math_round_le:
  assumes "0 < max (width b) (height b)" "d \<le> max (width b) (height b)"
  shows "Math_round (fl (real d * scaleOf b)) \<le> 512"
proof -
  have "(1::real) / 2 ^ 42 < 1 / 2" by simp
  then have "fl (real d * scaleOf b) + 1 / 2 < 513"
    using prod_close [OF assms] by linarith
  then show ?thesis unfolding Math_round_def by linarith
qed

lemma workingDims_bounds:
  "64 \<le> fst (workingDims bmp)" "fst (workingDims bmp) \<le> 512"
  "64 \<le> snd (workingDims bmp)" "snd (workingDims bmp) \<le> 512"
proof -
  show "64 \<le> fst (workingDims bmp)" "64 \<le> snd (workingDims bmp)"
    by (simp_all add: workingDims_def Let_def)
  have "Math_round (fl (real (width bmp) * scaleOf bmp)) \<le> 512
      \<and> Math_round (fl (real (height bmp) * scaleOf bmp)) \<le> 512"
  proof (cases "max (width bmp) (height bmp) = 0")
    case True
    then show ?thesis by (simp add: fl_0 Math_round_def)
  next
    case False
    then have "0 < max (width bmp) (height bmp)" by linarith
    then show ?thesis
      using Math_round_le [of bmp "width bmp"] Math_round_le [of bmp "height bmp"] by simp
  qed
  then show "fst (workingDims bmp) \<le> 512" "snd (workingDims bmp) \<le> 512"
    by (auto simp: workingDims_def Let_def max_def)
qed

lemma floor_stable:
  fixes A B :: nat and z :: real
  assumes "0 < B" "\<not> B dvd A" "\<bar>z - real A / real B\<bar> < 1 / real B"
  shows "\<lfloor>z\<rfloor> = int (A div B)"
proof -
  define q where "q = A div B"
  define r where "r = A mod B"
  have A: "A = q * B + r" by (simp add: q_def r_def)
  have r: "1 \<le> r" "r + 1 \<le> B"
    using assms(1,2) by (simp_all add: r_def Suc_le_eq mod_greater_zero_iff_not_dvd)
  have B: "0 < real B" using assms(1) by simp
  have AB: "real A / real B = real q + real r / real B"
    using B by (simp add: A add_divide_distrib)
  have lo: "1 / real B \<le> real r / real B"
    using r(1) B by (intro divide_right_mono) simp_all
  have "real r + 1 \<le> real B" using r(2) by linarith
  then have "(real r + 1) / real B \<le> 1"
    using B by (simp add: divide_le_eq_1)
  then have hi: "real r / real B + 1 / real B \<le> 1"
    by (simp add: add_divide_distrib)
  have "real q \<le> z" "z < real q + 1"
    using assms(3) AB lo hi by linarith+
  then have "\<lfloor>z\<rfloor> = int q" by (intro floor_unique) simp_all
  then show ?thesis by (simp add: q_def)
qed

lemma exactScale_eq:
  assumes "0 < max (width b) (height b)"
  shows "exactScale b = 512 / real (max (max (width b) (height b)) 512)"
proof -
  define m where "m = max (width b) (height b)"
  have m: "0 < real m" using assms by (simp add: m_def)
  have "min 1 (512 / real m) = 512 / real (max m 512)"
  proof (cases "m \<le> 512")
    case True
    then have "1 \<le> 512 / real m" using m by (simp add: le_divide_eq_1)
    with True show ?thesis by (simp add: max_def min_def)
  next
    case False
    then have "512 / real m \<le> 1" using m by (simp add: divide_le_eq_1)
    with False show ?thesis by (simp add: max_def min_def)
  qed
  then show ?thesis unfolding exactScale_def m_def .
qed

lemma round_off_tie:
  assumes m: "0 < max (width b) (height b)" "max (width b) (height b) < 2 ^ 32"
    and d: "d \<le> max (width b) (height b)"
    and tie: "frac (real d * exactScale b) \<noteq> 1 / 2"
  shows "Math_round (fl (real d * scaleOf b)) = round (real d * exactScale b)"
proof -
  define M where "M = max (max (width b) (height b)) 512"
  define x where "x = real d * exactScale b"
  define A where "A = 1024 * d + M"
  define B where "B = 2 * M"
  have M: "0 < M" "M < 2 ^ 32" using m by (simp_all add: M_def)
  have B: "0 < B" "real B < 2 ^ 42"
  proof -
    show "0 < B" using M by (simp add: B_def)
    have "B < 2 ^ 33" using M(2) by (simp add: B_def)
    then have "real B < 2 ^ 33" by (metis of_nat_less_iff of_nat_numeral of_nat_power)
    then show "real B < 2 ^ 42" by simp
  qed
  have x: "x = 512 * real d / real M"
    by (simp add: x_def exactScale_eq [OF m(1)] M_def)
  have xA: "x + 1 / 2 = real A / real B"
    using M(1) by (simp add: x A_def B_def field_simps)
  have nd: "\<not> B dvd A"
  proof
    assume "B dvd A"
    then obtain k where k: "A = B * k" by (rule dvdE)
    have "real A / real B = real k" using B(1) by (simp add: k)
    then have "x = real k - 1 / 2" using xA by simp
    then have "x - 1 / 2 = of_int (int k - 1)" by simp
    then have "x - 1 / 2 \<in> \<int>" by (metis Ints_of_int)
    then have "frac x = 1 / 2" unfolding frac_unique_iff by simp
    with tie show False by (simp add: x_def)
  qed
  have "\<bar>fl (real d * scaleOf b) - x\<bar> \<le> 1 / 2 ^ 42"
    using prod_close(1) [OF m(1) d] by (simp add: x_def)
  moreover have "(1::real) / 2 ^ 42 < 1 / real B"
    using B by (simp add: field_simps)
  ultimately have "\<bar>(fl (real d * scaleOf b) + 1 / 2) - real A / real B\<bar> < 1 / real B"
    using xA by linarith
  then have "\<lfloor>fl (real d * scaleOf b) + 1 / 2\<rfloor> = int (A div B)"
    by (rule floor_stable [OF B(1) nd])
  moreover have "\<lfloor>x + 1 / 2\<rfloor> = int (A div B)"
    unfolding xA by (simp add: floor_divide_of_nat_eq)
  ultimately show ?thesis
    by (simp add: Math_round_def round_def x_def)
qed

lemma fl_512: "fl 512 = 512"
  using fl_nat [of 512] by simp

lemma fl_64: "fl 64 = 64"
  using fl_nat [of 64] by simp

lemma fl_8: "fl 8 = 8"
  using fl_nat [of 8] by simp

lemma scaleOf_1024: "scaleOf \<lparr>width = 1024, height = 129\<rparr> = 1 / 2"
  by (simp add: scaleOf_def fl_half)

lemma dims_1024_129: "workingDims \<lparr>width = 1024, height = 129\<rparr> = (512, 65)"
  by (simp add: workingDims_def scaleOf_1024 Math_round_def fl_512 fl_129_half)

lemma dims64: "workingDims \<lparr>width = 64, height = 64\<rparr> = (64, 64)"
  by (simp add: workingDims_def scaleOf_def Math_round_def fl_8 fl_64)

lemma dims0: "workingDims \<lparr>width = 0, height = 0\<rparr> = (64, 64)"
  by (simp add: workingDims_def scaleOf_def Math_round_def fl_0)

lemma scale_50176: "fl (512 / 50176) = 5882252574524729 / 2 ^ 59"
  by (subst fl_scaled [where p = 59]) (simp_all add: rne_def Let_def)

lemma prod_50176_h: "fl (8771 * (5882252574524729 / 2 ^ 59)) = 6298002603900927 / 2 ^ 46"
  by (subst fl_scaled [where p = 46]) (simp_all add: rne_def Let_def)

lemma prod_50176_w: "fl (50176 * (5882252574524729 / 2 ^ 59)) = 9007199254740991 / 2 ^ 44"
  by (subst fl_scaled [where p = 44]) (simp_all add: rne_def Let_def)

lemma dims_50176_8771: "workingDims \<lparr>width = 50176, height = 8771\<rparr> = (512, 89)"
proof -
  let ?b = "\<lparr>width = 50176, height = 8771\<rparr>"
  have "scaleOf ?b = min 1 (fl (512 / 50176))"
    by (simp add: scaleOf_def)
  also have "\<dots> = min 1 (5882252574524729 / 2 ^ 59)"
    by (simp only: scale_50176)
  also have "\<dots> = 5882252574524729 / 2 ^ 59"
    by simp
  finally have s: "scaleOf ?b = 5882252574524729 / 2 ^ 59" .
  have "real (width ?b) * scaleOf ?b = 50176 * (5882252574524729 / 2 ^ 59)"
    unfolding s by simp
  then have w: "fl (real (width ?b) * scaleOf ?b) = 9007199254740991 / 2 ^ 44"
    by (simp only: prod_50176_w)
  have "real (height ?b) * scaleOf ?b = 8771 * (5882252574524729 / 2 ^ 59)"
    unfolding s by simp
  then have h: "fl (real (height ?b) * scaleOf ?b) = 6298002603900927 / 2 ^ 46"
    by (simp only: prod_50176_h)
  have "Math_round (9007199254740991 / 2 ^ 44) = 512"
       "Math_round (6298002603900927 / 2 ^ 46) = 89"
    by (simp_all add: Math_round_def)
  then show ?thesis
    unfolding workingDims_def Let_def w h by simp
qed

lemma workingDims_ge3:
  assumes "workingDims imgBitmap = (w, h)"
  shows "64 \<le> w" "w \<le> 512" "64 \<le> h" "h \<le> 512" "3 \<le> w" "3 \<le> h"
  using workingDims_bounds [of imgBitmap] assms by simp_all

lemma clamp_bounds: "a \<le> b \<Longrightarrow> a \<le> clamp v a b \<and> clamp v a b \<le> b"
  by (simp add: clamp_def)

lemma clamp_mono: "v \<le> v' \<Longrightarrow> clamp v a b \<le> clamp v' a b"
  by (auto simp: clamp_def max_def min_def)

subsection \<open>The loops as sums\<close>

lemma fold_add: "fold (\<lambda>x s. s + f x) xs (a::real) = a + sum_list (map f xs)"
  by (induction xs arbitrary: a) simp_all

lemma fold_fold_add:
  "fold (\<lambda>y. fold (\<lambda>x s. s + f y x) xs) ys (a::real)
     = a + (\<Sum>y\<leftarrow>ys. \<Sum>x\<leftarrow>xs. f y x)"
  by (induction ys arbitrary: a) (simp_all add: fold_add)

lemma lapSumOf_sum:
  "lapSumOf gray w h = (\<Sum>y\<leftarrow>[1..<h - 1]. \<Sum>x\<leftarrow>[1..<w - 1]. \<bar>lapAt gray w (y * w + x)\<bar>)"
  using fold_fold_add [of "\<lambda>y x. \<bar>lapAt gray w (y * w + x)\<bar>" "[1..<w - 1]" "[1..<h - 1]" 0]
  by (simp add: lapSumOf_def Let_def)

lemma lapSumOf_nonneg: "0 \<le> lapSumOf gray w h"
  unfolding lapSumOf_sum by (auto intro!: sum_list_nonneg)

lemma byteAt_bounds: "0 \<le> byteAt data k" "byteAt data k \<le> 255"
proof -
  have "unat (data ! k) < 2 ^ 8" using unsigned_less [of "data ! k", where ?'a = nat] by simp
  then have "unat (data ! k) \<le> 255" by simp
  then have "real (unat (data ! k)) \<le> real 255" by (rule of_nat_mono)
  then show "byteAt data k \<le> 255" unfolding byteAt_def by simp
  show "0 \<le> byteAt data k" unfolding byteAt_def by (rule of_nat_0_le_iff)
qed

lemma chan_bounds: "0 \<le> minChan data i" "minChan data i \<le> maxChan data i" "maxChan data i \<le> 1"
  using byteAt_bounds [of data "i * 4"] byteAt_bounds [of data "i * 4 + 1"]
    byteAt_bounds [of data "i * 4 + 2"]
  by (auto simp: maxChan_def minChan_def Let_def max_def min_def)

lemma satOf_eq: "satOf data i = Some (satValue data i)"
  by (simp add: satOf_def satValue_def jsdiv_def Let_def)

lemma satValue_bounds: "0 \<le> satValue data i" "satValue data i \<le> 1"
  using chan_bounds [of data i] by (auto simp: satValue_def divide_simps)

lemma fold_add_option:
  "fold (\<lambda>x acc. do { s \<leftarrow> acc; v \<leftarrow> Some (f x); Some (s + v) }) xs (Some (a::real))
     = Some (a + sum_list (map f xs))"
  by (induction xs arbitrary: a) simp_all

lemma satSumOf_sum: "satSumOf data N = Some (\<Sum>i\<leftarrow>[0..<N]. satValue data i)"
  using fold_add_option [of "satValue data" "[0..<N]" 0]
  by (simp add: satSumOf_def satOf_eq)

lemma satTotal_bounds:
  "0 \<le> (\<Sum>i\<leftarrow>[0..<N]. satValue data i)" "(\<Sum>i\<leftarrow>[0..<N]. satValue data i) \<le> real N"
proof -
  show "0 \<le> (\<Sum>i\<leftarrow>[0..<N]. satValue data i)"
    by (intro sum_list_nonneg) (auto simp: satValue_bounds)
  have "(\<Sum>i\<leftarrow>[0..<N]. satValue data i) \<le> (\<Sum>i\<leftarrow>[0..<N]. 1)"
    by (intro sum_list_mono) (auto simp: satValue_bounds)
  then show "(\<Sum>i\<leftarrow>[0..<N]. satValue data i) \<le> real N"
    by (simp add: sum_list_triv)
qed

lemma upt3: "[0..<3] = [0, 1, 2]"
  by (simp add: upt_rec)

lemma channelSums_eq:
  "channelSums data N =
     ([(\<Sum>i<N. byteAt data (i * 4)), (\<Sum>i<N. byteAt data (i * 4 + 1)),
       (\<Sum>i<N. byteAt data (i * 4 + 2))],
      [(\<Sum>i<N. byteAt data (i * 4) * byteAt data (i * 4)),
       (\<Sum>i<N. byteAt data (i * 4 + 1) * byteAt data (i * 4 + 1)),
       (\<Sum>i<N. byteAt data (i * 4 + 2) * byteAt data (i * 4 + 2))])"
proof (induction N)
  case 0
  show ?case by (simp add: channelSums_def)
next
  case (Suc N)
  have "channelSums data (Suc N) =
      fold (\<lambda>cidx (mean, sq).
             let val = byteAt data (N * 4 + cidx)
             in (mean[cidx := mean ! cidx + val], sq[cidx := sq ! cidx + val * val]))
           [0..<3] (channelSums data N)"
    by (simp add: channelSums_def)
  then show ?case
    by (simp add: Suc.IH upt3 Let_def)
qed

lemma stdOf_Some:
  "0 < N \<Longrightarrow> stdOf m q N = Some (sqrt (max 0 (q / real N - (m / real N) * (m / real N))))"
  by (simp add: stdOf_def jsdiv_def jssqrt_def)

subsection \<open>The extractor returns a feature set\<close>

lemma interior_pos:
  assumes "3 \<le> w" "3 \<le> h"
  shows "1 \<le> (int w - 2) * (int h - 2)"
proof -
  have "1 * 1 \<le> (int w - 2) * (int h - 2)"
    using assms by (intro mult_mono) simp_all
  then show ?thesis by simp
qed

lemma extractFeatures_Some:
  assumes "3 \<le> w" "3 \<le> h"
  shows "extractFeatures data w h f =
     Some \<lparr>lapAvg = lapSumOf (grayMap data w h) w h / real_of_int ((int w - 2) * (int h - 2)),
           avgStd = (chanStd data (w * h) 0 + chanStd data (w * h) 1 + chanStd data (w * h) 2) / 3,
           avgSat = (\<Sum>i\<leftarrow>[0..<w * h]. satValue data i) / real (w * h),
           sizeKB = real (size_f f) / 1024\<rparr>"
proof -
  have "0 < (int w - 2) * (int h - 2)"
    using interior_pos [OF assms] by linarith
  then have d: "real_of_int ((int w - 2) * (int h - 2)) \<noteq> 0"
    by (simp only: of_int_eq_0_iff)
  have "0 < w * h" using assms by simp
  then have N: "real (w * h) \<noteq> 0" "0 < w * h" by simp_all
  show ?thesis
    unfolding extractFeatures_def Let_def channelSums_eq
    using d N by (simp add: stdOf_Some satSumOf_sum jsdiv_def chanStd_def del: of_int_mult of_nat_mult)
qed

lemma extractFeatures_nonneg:
  assumes "3 \<le> w" "3 \<le> h" "extractFeatures data w h f = Some fs"
  shows "0 \<le> lapAvg fs" "0 \<le> avgStd fs" "0 \<le> avgSat fs" "avgSat fs \<le> 1" "0 \<le> sizeKB fs"
proof -
  have fs: "fs = \<lparr>lapAvg = lapSumOf (grayMap data w h) w h / real_of_int ((int w - 2) * (int h - 2)),
           avgStd = (chanStd data (w * h) 0 + chanStd data (w * h) 1 + chanStd data (w * h) 2) / 3,
           avgSat = (\<Sum>i\<leftarrow>[0..<w * h]. satValue data i) / real (w * h),
           sizeKB = real (size_f f) / 1024\<rparr>"
    using assms(3) extractFeatures_Some [OF assms(1,2), of data f] by simp
  have d: "0 < real_of_int ((int w - 2) * (int h - 2))"
    using interior_pos [OF assms(1,2)] by linarith
  show "0 \<le> lapAvg fs"
    using d lapSumOf_nonneg [of "grayMap data w h" w h]
    by (simp add: fs del: of_int_mult)
  show "0 \<le> avgStd fs"
    by (simp add: fs chanStd_def)
  have N: "0 < real (w * h)" using assms by simp
  show "0 \<le> avgSat fs"
    using N satTotal_bounds(1) [of data "w * h"] by (simp add: fs del: of_nat_mult)
  show "avgSat fs \<le> 1"
    using N satTotal_bounds(2) [of data "w * h"] by (simp add: fs del: of_nat_mult)
  show "0 \<le> sizeKB fs" by (simp add: fs)
qed

subsection \<open>Uniform images\<close>

lemma grayMap_uniform:
  assumes "uniformImage data (w * h) v" "i < w * h"
  shows "grayMap data w h ! i = real (unat v)"
  using assms by (simp add: grayMap_def uniformImage_def byteAt_def Let_def)

lemma sum_list_all_zero: "(\<And>x. x \<in> set xs \<Longrightarrow> f x = (0::real)) \<Longrightarrow> sum_list (map f xs) = 0"
  by (induction xs) simp_all

lemma interior_index:
  fixes x y w h :: nat
  assumes "1 \<le> y" "y < h - 1" "1 \<le> x" "x < w - 1"
  shows "y * w + x + w < w * h" "w \<le> y * w + x" "1 \<le> y * w + x"
proof -
  have "Suc (Suc y) \<le> h" using assms by simp
  then have "Suc (Suc y) * w \<le> h * w" by (rule mult_le_mono1)
  then show "y * w + x + w < w * h" using assms by (simp add: mult.commute)
  have "w \<le> y * w" using assms(1) by (cases y) simp_all
  then show "w \<le> y * w + x" by (rule trans_le_add1)
  show "1 \<le> y * w + x" using assms by simp
qed

lemma lapAt_uniform:
  assumes u: "uniformImage data (w * h) v"
    and yx: "1 \<le> y" "y < h - 1" "1 \<le> x" "x < w - 1"
  shows "lapAt (grayMap data w h) w (y * w + x) = 0"
proof -
  note ix = interior_index [OF yx]
  have "y * w + x < w * h" "y * w + x - 1 < w * h" "y * w + x + 1 < w * h"
       "y * w + x - w < w * h" "y * w + x + w < w * h"
    using ix yx by simp_all
  then show ?thesis
    by (simp add: lapAt_def grayMap_uniform [OF u])
qed

lemma lapSumOf_uniform:
  assumes "uniformImage data (w * h) v"
  shows "lapSumOf (grayMap data w h) w h = 0"
proof -
  have "(\<Sum>x\<leftarrow>[1..<w - 1]. \<bar>lapAt (grayMap data w h) w (y * w + x)\<bar>) = 0"
    if "y \<in> set [1..<h - 1]" for y
    using that by (intro sum_list_all_zero) (simp add: lapAt_uniform [OF assms])
  then show ?thesis
    unfolding lapSumOf_sum by (rule sum_list_all_zero)
qed

lemma chanStd_uniform:
  assumes "uniformImage data N v" "c < 3" "0 < N"
  shows "chanStd data N c = 0"
proof -
  have b: "byteAt data (i * 4 + c) = real (unat v)" if "i < N" for i
  proof -
    have "c = 0 \<or> c = 1 \<or> c = 2" using assms(2) by linarith
    then show ?thesis using assms(1) that by (auto simp: uniformImage_def byteAt_def)
  qed
  have s: "(\<Sum>i<N. byteAt data (i * 4 + c)) = real N * real (unat v)"
    using b by simp
  have q: "(\<Sum>i<N. byteAt data (i * 4 + c) * byteAt data (i * 4 + c))
             = real N * (real (unat v) * real (unat v))"
    using b by simp
  show ?thesis
    unfolding chanStd_def s q using assms(3) by simp
qed

lemma satValue_uniform:
  assumes "uniformImage data N v" "i < N"
  shows "satValue data i = 0"
  using assms by (simp add: satValue_def maxChan_def minChan_def uniformImage_def byteAt_def Let_def)

lemma satTotal_uniform:
  assumes "uniformImage data N v"
  shows "(\<Sum>i\<leftarrow>[0..<N]. satValue data i) = 0"
  by (intro sum_list_all_zero) (simp add: satValue_uniform [OF assms])

lemma extractFeatures_uniform:
  assumes "3 \<le> w" "3 \<le> h" "uniformImage data (w * h) v"
  shows "extractFeatures data w h f =
           Some \<lparr>lapAvg = 0, avgStd = 0, avgSat = 0, sizeKB = real (size_f f) / 1024\<rparr>"
proof -
  have "0 < w * h" using assms by simp
  then show ?thesis
    unfolding extractFeatures_Some [OF assms(1,2)]
    by (simp add: lapSumOf_uniform [OF assms(3)] satTotal_uniform [OF assms(3)]
        chanStd_uniform [OF assms(3)] del: of_int_mult of_nat_mult)
qed

subsection \<open>The combination and the whole function\<close>

lemma norm_bounds:
  "0 \<le> lapNorm fs" "lapNorm fs \<le> 1" "0 \<le> stdNorm fs" "stdNorm fs \<le> 1"
  "0 \<le> satNorm fs" "satNorm fs \<le> 1" "0 \<le> sizeNorm fs" "sizeNorm fs \<le> 1"
  by (simp_all add: lapNorm_def stdNorm_def satNorm_def sizeNorm_def clamp_def)

lemma score_bounds: "0 \<le> score fs" "score fs \<le> 100"
  using norm_bounds [of fs] by (simp_all add: score_def)

lemma finalScore_bounds: "0 \<le> finalScore fs rnd" "finalScore fs rnd \<le> 100"
  by (simp_all add: finalScore_def clamp_def)

lemma finalScore_no_jitter: "jitter rnd = 0 \<Longrightarrow> finalScore fs rnd = score fs"
  using score_bounds [of fs] by (simp add: finalScore_def clamp_def)

lemma computeScore_Inr:
  assumes "workingDims imgBitmap = (w, h)" "canvasData cv imgBitmap w h = Inr data"
  shows "computeScoreFromBitmap cv imgBitmap f gen =
     (Inr (map_option (\<lambda>fs. finalScore fs (gen 0)) (extractFeatures data w h f)),
      \<lambda>n. gen (Suc n))"
  using assms by (simp add: computeScoreFromBitmap_def Math_random_def)


lemma canvasData_Inr:
  "0 < width imgBitmap \<Longrightarrow> 0 < height imgBitmap \<Longrightarrow>
   canvasData cv imgBitmap w h = Inr (cv imgBitmap w h)"
  by (simp add: canvasData_def)

lemma computeScore_uniform:
  assumes "workingDims imgBitmap = (w, h)" "canvasData cv imgBitmap w h = Inr data"
    "uniformImage data (w * h) v"
  shows "fst (computeScoreFromBitmap cv imgBitmap f gen) =
     Inr (Some (finalScore \<lparr>lapAvg = 0, avgStd = 0, avgSat = 0, sizeKB = real (size_f f) / 1024\<rparr>
            (gen 0)))"
  unfolding computeScore_Inr [OF assms(1,2)]
  by (simp add: extractFeatures_uniform [OF workingDims_ge3(5,6) [OF assms(1)] assms(3)])

lemma uniform_replicate: "uniformImage (replicate (4 * n) v) n v"
  by (simp add: uniformImage_def)

lemma blackCanvas_uniform: "uniformImage (blackCanvas imgBitmap w h) (w * h) 0"
  unfolding blackCanvas_def by (rule uniform_replicate)

lemma grayCanvas_uniform: "uniformImage (grayCanvas imgBitmap w h) (w * h) 128"
  unfolding grayCanvas_def by (rule uniform_replicate)

lemmas norm_defs = finalScore_def score_def jitter_def lapNorm_def stdNorm_def satNorm_def
  sizeNorm_def clamp_def

lemmas draws_defs = drawsHalf_def drawsZero_def

lemma extractFeatures_total:
  assumes "workingDims imgBitmap = (w, h)"
  shows "\<exists>fs. extractFeatures data w h f = Some fs"
  using extractFeatures_Some [OF workingDims_ge3(5,6) [OF assms]] by blast

lemma blackCanvas_length: "length (blackCanvas imgBitmap w h) = 4 * (w * h)"
  by (simp add: blackCanvas_def)

lemma grayCanvas_length: "length (grayCanvas imgBitmap w h) = 4 * (w * h)"
  by (simp add: grayCanvas_def)

lemma jitter_range: "0 \<le> rnd \<Longrightarrow> rnd < 1 \<Longrightarrow> - 3 \<le> jitter rnd \<and> jitter rnd < 3"
  by (simp add: jitter_def)

lemma clamp_mono_div:
  "0 < c \<Longrightarrow> x \<le> x' \<Longrightarrow> clamp ((k - x') / c) 0 1 \<le> clamp ((k - x) / c) 0 1"
  by (intro clamp_mono divide_right_mono) simp_all

lemma lapNorm_antimono: "lapAvg fs \<le> lapAvg fs' \<Longrightarrow> lapNorm fs' \<le> lapNorm fs"
  unfolding lapNorm_def by (rule clamp_mono_div) simp_all

lemma stdNorm_antimono: "avgStd fs \<le> avgStd fs' \<Longrightarrow> stdNorm fs' \<le> stdNorm fs"
  unfolding stdNorm_def by (rule clamp_mono_div) simp_all

lemma sizeNorm_antimono: "sizeKB fs \<le> sizeKB fs' \<Longrightarrow> sizeNorm fs' \<le> sizeNorm fs"
  unfolding sizeNorm_def by (rule clamp_mono_div) (simp_all add: min.coboundedI1)

lemma satNorm_mono: "avgSat fs \<le> avgSat fs' \<Longrightarrow> satNorm fs \<le> satNorm fs'"
  unfolding satNorm_def by (intro clamp_mono divide_right_mono) simp_all

lemma finalScore_mono:
  assumes "lapNorm fs \<le> lapNorm fs'" "stdNorm fs \<le> stdNorm fs'"
    "satNorm fs \<le> satNorm fs'" "sizeNorm fs \<le> sizeNorm fs'"
  shows "finalScore fs rnd \<le> finalScore fs' rnd"
  unfolding finalScore_def using assms by (intro clamp_mono) (simp add: score_def)

lemma stdOf_total: "0 < N \<Longrightarrow> \<exists>s. stdOf m q N = Some s \<and> 0 \<le> s"
  by (simp add: stdOf_Some)

lemma verdict_90: "verdict 90 = ''AI-generated''"
  by (simp add: verdict_def)

lemma dims_off_tie:
  assumes "0 < max (width b) (height b)" "max (width b) (height b) < 2 ^ 32"
  shows "frac (real (width b) * exactScale b) \<noteq> 1 / 2 \<Longrightarrow>
           fst (workingDims b) = nat (max 64 (round (real (width b) * exactScale b)))"
    and "frac (real (height b) * exactScale b) \<noteq> 1 / 2 \<Longrightarrow>
           snd (workingDims b) = nat (max 64 (round (real (height b) * exactScale b)))"
  using round_off_tie [OF assms, of "width b"] round_off_tie [OF assms, of "height b"]
  by (simp_all add: workingDims_def Let_def)

lemma pow2_ratio: "512 / (2::real) ^ k = 2 powr (of_int (9 - int k))"
proof -
  have "(2::real) powr (of_int (9 - int k)) = 2 powr 9 / 2 powr (real k)"
    by (simp add: powr_diff)
  also have "(2::real) powr 9 = 512" by (simp add: powr_numeral)
  also have "(2::real) powr (real k) = 2 ^ k" by (simp add: powr_realpow)
  finally show ?thesis by simp
qed

lemma scale_pow2:
  assumes "max (width b) (height b) = 2 ^ k"
  shows "scaleOf b = exactScale b"
proof -
  have "fl (1 * 2 powr (of_int (9 - int k))) = 1 * 2 powr (of_int (9 - int k))"
    using fl_exact [of 1 "9 - int k"] by simp
  then have "fl (512 / 2 ^ k) = 512 / 2 ^ k"
    by (simp add: pow2_ratio)
  then show ?thesis
    by (simp add: scaleOf_def exactScale_def assms)
qed

lemma exactScale_pow2:
  assumes "max (width b) (height b) = 2 ^ k"
  shows "exactScale b = 2 powr (of_int (min 0 (9 - int k)))"
proof (cases "k \<le> 9")
  case True
  then have "(2::real) powr 0 \<le> 2 powr (of_int (9 - int k))"
    by (subst powr_le_cancel_iff) simp_all
  then have "1 \<le> 512 / (2::real) ^ k" by (simp add: pow2_ratio)
  with True show ?thesis by (simp add: exactScale_def assms min_def)
next
  case False
  then have "(2::real) powr (of_int (9 - int k)) \<le> 2 powr 0"
    by (subst powr_le_cancel_iff) simp_all
  then have "512 / (2::real) ^ k \<le> 1" by (simp add: pow2_ratio)
  with False show ?thesis by (simp add: exactScale_def assms min_def pow2_ratio)
qed

lemma prod_pow2:
  assumes "max (width b) (height b) = 2 ^ k" "d < 2 ^ 53"
  shows "fl (real d * scaleOf b) = real d * exactScale b"
proof (cases "d = 0")
  case True
  then show ?thesis by (simp add: fl_0)
next
  case False
  have "int d < 2 ^ 53" using assms(2) by (metis of_nat_less_iff of_nat_numeral of_nat_power)
  then have "fl (of_int (int d) * 2 powr (of_int (min 0 (9 - int k))))
      = of_int (int d) * 2 powr (of_int (min 0 (9 - int k)))"
    using False by (intro fl_exact) simp_all
  then show ?thesis
    by (simp add: scale_pow2 [OF assms(1)] exactScale_pow2 [OF assms(1)])
qed

lemma dims_pow2:
  assumes "max (width b) (height b) = 2 ^ k" "max (width b) (height b) < 2 ^ 32"
  shows "workingDims b =
           (nat (max 64 (round (real (width b) * exactScale b))),
            nat (max 64 (round (real (height b) * exactScale b))))"
proof -
  have "width b < 2 ^ 32" "height b < 2 ^ 32" using assms(2) by simp_all
  then have "width b < 2 ^ 53" "height b < 2 ^ 53" by simp_all
  then show ?thesis
    by (simp add: workingDims_def Let_def Math_round_def round_def prod_pow2 [OF assms(1)])
qed

lemma exactScale_1000: "exactScale \<lparr>width = 1000, height = 701\<rparr> = 64 / 125"
  by (simp add: exactScale_def)

lemma redDot_length: "length redDot = 36"
  by (simp add: redDot_def)

lemma redDot_chan:
  "maxChan redDot 0 = 1" "minChan redDot 0 = 0" "maxChan redDot 1 = 0" "minChan redDot 1 = 0"
  by (simp_all add: maxChan_def minChan_def byteAt_def redDot_def nth_append)

section \<open>The properties\<close>

subsection \<open>The downscale step\<close>

text \<open>
  C6, as the code has it. For a longer edge that is positive (and below \<open>2\<^sup>3\<^sup>2\<close>, as the
  dimensions of an \<^verbatim>\<open>ImageBitmap\<close> are), the scale factor is
  \<open>min(1, 512 / max(origW, origH))\<close> computed in double precision, so within a relative
  \<open>2\<^sup>-\<^sup>5\<^sup>3\<close> of the exact value, and the working width and height are each the product
  \<open>origDim \<times> scale\<close> rounded by \<^verbatim>\<open>Math.round\<close>, not floored, then raised to 64 where
  below. Whenever the exact product is not halfway between two integers, the result is
  the integer nearest to it, or 64. When the longer edge is a power of two the scale and
  the products are exact, and a half goes upwards. (At the other exact halves the result
  follows the rounding of the doubles; \<open>dims_50176_8771\<close> is one that goes downwards.)
\<close>

theorem workingDims_rounds:
  assumes "0 < max (width imgBitmap) (height imgBitmap)"
    and "max (width imgBitmap) (height imgBitmap) < 2 ^ 32"
  shows "exactScale imgBitmap = min 1 (512 / real (max (width imgBitmap) (height imgBitmap)))
   \<and> \<bar>scaleOf imgBitmap - exactScale imgBitmap\<bar> \<le> exactScale imgBitmap / 2 ^ 53
   \<and> (frac (real (width imgBitmap) * exactScale imgBitmap) \<noteq> 1 / 2 \<longrightarrow>
        fst (workingDims imgBitmap)
          = nat (max 64 (round (real (width imgBitmap) * exactScale imgBitmap))))
   \<and> (frac (real (height imgBitmap) * exactScale imgBitmap) \<noteq> 1 / 2 \<longrightarrow>
        snd (workingDims imgBitmap)
          = nat (max 64 (round (real (height imgBitmap) * exactScale imgBitmap))))
   \<and> ((\<exists>k. max (width imgBitmap) (height imgBitmap) = 2 ^ k) \<longrightarrow>
        workingDims imgBitmap
          = (nat (max 64 (round (real (width imgBitmap) * exactScale imgBitmap))),
             nat (max 64 (round (real (height imgBitmap) * exactScale imgBitmap)))))"
proof -
  have "(\<exists>k. max (width imgBitmap) (height imgBitmap) = 2 ^ k) \<longrightarrow>
        workingDims imgBitmap
          = (nat (max 64 (round (real (width imgBitmap) * exactScale imgBitmap))),
             nat (max 64 (round (real (height imgBitmap) * exactScale imgBitmap))))"
    using dims_pow2 [OF _ assms(2)] by blast
  then show ?thesis
    using scale_close [OF assms(1)] dims_off_tie [OF assms]
    by (simp add: exactScale_def)
qed

text \<open>
  A 1000 by 701 bitmap: the exact scale is 0.512, the products are 512 and 358.912, and
  the working dimensions are 512 by 359 (the floor of 358.912 is 358). A 1024 by 129
  bitmap: the longer edge is \<open>2\<^sup>1\<^sup>0\<close>, the scale 0.5, the products 512 and 64.5, and the
  working dimensions are 512 by 65.
\<close>

theorem workingDims_rounds_witness:
  "0 < max (width \<lparr>width = 1000, height = 701\<rparr>) (height \<lparr>width = 1000, height = 701\<rparr>)
   \<and> max (width \<lparr>width = 1000, height = 701\<rparr>) (height \<lparr>width = 1000, height = 701\<rparr>) < 2 ^ 32
   \<and> frac (real (width \<lparr>width = 1000, height = 701\<rparr>) * exactScale \<lparr>width = 1000, height = 701\<rparr>)
       \<noteq> 1 / 2
   \<and> frac (real (height \<lparr>width = 1000, height = 701\<rparr>) * exactScale \<lparr>width = 1000, height = 701\<rparr>)
       \<noteq> 1 / 2
   \<and> fst (workingDims \<lparr>width = 1000, height = 701\<rparr>) = 512
   \<and> snd (workingDims \<lparr>width = 1000, height = 701\<rparr>) = 359
   \<and> 0 < max (width \<lparr>width = 1024, height = 129\<rparr>) (height \<lparr>width = 1024, height = 129\<rparr>)
   \<and> max (width \<lparr>width = 1024, height = 129\<rparr>) (height \<lparr>width = 1024, height = 129\<rparr>) < 2 ^ 32
   \<and> max (width \<lparr>width = 1024, height = 129\<rparr>) (height \<lparr>width = 1024, height = 129\<rparr>) = 2 ^ 10
   \<and> workingDims \<lparr>width = 1024, height = 129\<rparr> = (512, 65)"
proof -
  have m: "0 < max (width \<lparr>width = 1000, height = 701\<rparr>) (height \<lparr>width = 1000, height = 701\<rparr>)"
    "max (width \<lparr>width = 1000, height = 701\<rparr>) (height \<lparr>width = 1000, height = 701\<rparr>) < 2 ^ 32"
    by simp_all
  have f: "frac (real (width \<lparr>width = 1000, height = 701\<rparr>) * exactScale \<lparr>width = 1000, height = 701\<rparr>)
             \<noteq> 1 / 2"
    "frac (real (height \<lparr>width = 1000, height = 701\<rparr>) * exactScale \<lparr>width = 1000, height = 701\<rparr>)
             \<noteq> 1 / 2"
    by (simp_all add: exactScale_1000 frac_def)
  note t = workingDims_rounds [OF m]
  have 1: "fst (workingDims \<lparr>width = 1000, height = 701\<rparr>) = 512"
    using t f(1) by (simp add: exactScale_1000 round_def)
  have 2: "snd (workingDims \<lparr>width = 1000, height = 701\<rparr>) = 359"
    using t f(2) by (simp add: exactScale_1000 round_def)
  have n: "0 < max (width \<lparr>width = 1024, height = 129\<rparr>) (height \<lparr>width = 1024, height = 129\<rparr>)"
    "max (width \<lparr>width = 1024, height = 129\<rparr>) (height \<lparr>width = 1024, height = 129\<rparr>) < 2 ^ 32"
    by simp_all
  have p: "max (width \<lparr>width = 1024, height = 129\<rparr>) (height \<lparr>width = 1024, height = 129\<rparr>) = 2 ^ 10"
    by simp
  note u = workingDims_rounds [OF n]
  have "workingDims \<lparr>width = 1024, height = 129\<rparr>
          = (nat (max 64 (round (real (width \<lparr>width = 1024, height = 129\<rparr>)
                                   * exactScale \<lparr>width = 1024, height = 129\<rparr>))),
             nat (max 64 (round (real (height \<lparr>width = 1024, height = 129\<rparr>)
                                   * exactScale \<lparr>width = 1024, height = 129\<rparr>))))"
    using u p by blast
  then have 3: "workingDims \<lparr>width = 1024, height = 129\<rparr> = (512, 65)"
    by (simp add: exactScale_def round_def)
  show ?thesis using m f 1 2 n p 3 by blast
qed

text \<open>
  C6 as it is worded (floor, then the minimum of 64) gives 512 by 64 for a 1024 by 129
  bitmap, where the code gives 512 by 65: the scale is 0.5, the product 64.5.
\<close>

theorem workingDims_floor_counterexample:
  "workingDims \<lparr>width = 1024, height = 129\<rparr> = (512, 65)
   \<and> (nat (max 64 \<lfloor>real (width \<lparr>width = 1024, height = 129\<rparr>)
                      * min 1 (512 / real (max (width \<lparr>width = 1024, height = 129\<rparr>)
                                              (height \<lparr>width = 1024, height = 129\<rparr>)))\<rfloor>),
        nat (max 64 \<lfloor>real (height \<lparr>width = 1024, height = 129\<rparr>)
                      * min 1 (512 / real (max (width \<lparr>width = 1024, height = 129\<rparr>)
                                              (height \<lparr>width = 1024, height = 129\<rparr>)))\<rfloor>))
       = (512, 64)"
  by (simp add: dims_1024_129)

text \<open>
  C7. For every positive original width and height the working dimensions \<open>W\<close>, \<open>H\<close>
  satisfy \<open>64 \<le> W\<close>, \<open>64 \<le> H\<close> and \<open>W \<times> H \<le> 512 \<times> 512\<close>; in particular both are at
  least 3 and the interior pixel count \<open>(W - 2)(H - 2)\<close> is at least 1.
\<close>

theorem workingDims_positive_bounded:
  assumes "0 < width imgBitmap" "0 < height imgBitmap" "workingDims imgBitmap = (W, H)"
  shows "64 \<le> W \<and> 64 \<le> H \<and> W * H \<le> 512 * 512 \<and> 3 \<le> W \<and> 3 \<le> H
         \<and> 1 \<le> (int W - 2) * (int H - 2)"
proof -
  note b = workingDims_ge3 [OF assms(3)]
  have "W * H \<le> 512 * 512" using b(2,4) by (rule mult_le_mono)
  then show ?thesis using b interior_pos [OF b(5,6)] by simp
qed

theorem workingDims_positive_bounded_witness:
  "0 < width \<lparr>width = 1024, height = 129\<rparr> \<and> 0 < height \<lparr>width = 1024, height = 129\<rparr>
   \<and> workingDims \<lparr>width = 1024, height = 129\<rparr> = (512, 65)
   \<and> (64::nat) \<le> 512 \<and> (64::nat) \<le> 65 \<and> (512::nat) * 65 \<le> 512 * 512
   \<and> 1 \<le> (int 512 - 2) * (int 65 - 2)"
  using workingDims_positive_bounded [of "\<lparr>width = 1024, height = 129\<rparr>" 512 65] dims_1024_129
  by simp

subsection \<open>The extractor\<close>

text \<open>
  C8. Under the dimension precondition (at least 3 columns and 3 rows, a buffer of four
  bytes for each pixel) every operation of the extractor has a finite value. The
  edge-energy average divides by the interior count \<open>(W - 2)(H - 2) \<ge> 1\<close>, the other
  averages by \<open>W \<times> H > 0\<close>. The saturation of a pixel is 0 when its largest channel is 0,
  where the quotient itself would have no finite value, and otherwise the quotient by
  that nonzero channel; it lies in \<open>[0, 1]\<close>. The standard deviation of a channel is the
  square root of the variance raised to 0, whatever the two sums are: a negative
  variance, whose square root would have no value, gives 0. So the extractor returns a
  feature set, its edge energy is the Laplacian sum over the interior count, and its
  four features are non-negative.
\<close>

theorem extractor_total:
  assumes "3 \<le> w" "3 \<le> h" "length data = 4 * (w * h)"
  shows "1 \<le> (int w - 2) * (int h - 2)
     \<and> 0 < w * h
     \<and> (\<forall>i. (maxChan data i = 0 \<longrightarrow>
                 satOf data i = Some 0
                 \<and> jsdiv (maxChan data i - minChan data i) (maxChan data i) = None)
            \<and> (maxChan data i \<noteq> 0 \<longrightarrow>
                 satOf data i = Some ((maxChan data i - minChan data i) / maxChan data i))
            \<and> (\<exists>s. satOf data i = Some s \<and> 0 \<le> s \<and> s \<le> 1))
     \<and> (\<forall>m q. stdOf m q (w * h)
                  = Some (sqrt (max 0 (q / real (w * h)
                                       - (m / real (w * h)) * (m / real (w * h)))))
              \<and> (q / real (w * h) - (m / real (w * h)) * (m / real (w * h)) < 0 \<longrightarrow>
                   stdOf m q (w * h) = Some 0
                   \<and> jssqrt (q / real (w * h) - (m / real (w * h)) * (m / real (w * h))) = None))
     \<and> (\<exists>fs. extractFeatures data w h f = Some fs
            \<and> lapAvg fs = lapSumOf (grayMap data w h) w h / real_of_int ((int w - 2) * (int h - 2))
            \<and> 0 \<le> lapAvg fs \<and> 0 \<le> avgStd fs \<and> 0 \<le> avgSat fs \<and> 0 \<le> sizeKB fs)"
proof -
  have N: "0 < w * h" using assms by simp
  obtain fs where fs: "extractFeatures data w h f = Some fs"
    using extractFeatures_Some [OF assms(1,2)] by blast
  have la: "lapAvg fs = lapSumOf (grayMap data w h) w h / real_of_int ((int w - 2) * (int h - 2))"
    using fs extractFeatures_Some [OF assms(1,2), of data f] by auto
  note nn = extractFeatures_nonneg [OF assms(1,2) fs]
  have 1: "\<exists>fs. extractFeatures data w h f = Some fs
            \<and> lapAvg fs = lapSumOf (grayMap data w h) w h / real_of_int ((int w - 2) * (int h - 2))
            \<and> 0 \<le> lapAvg fs \<and> 0 \<le> avgStd fs \<and> 0 \<le> avgSat fs \<and> 0 \<le> sizeKB fs"
    using fs la nn by blast
  have 2: "stdOf m q (w * h)
                  = Some (sqrt (max 0 (q / real (w * h)
                                       - (m / real (w * h)) * (m / real (w * h)))))
              \<and> (q / real (w * h) - (m / real (w * h)) * (m / real (w * h)) < 0 \<longrightarrow>
                   stdOf m q (w * h) = Some 0
                   \<and> jssqrt (q / real (w * h) - (m / real (w * h)) * (m / real (w * h))) = None)"
    for m q
    by (simp add: stdOf_Some [OF N] jssqrt_def max_def del: of_nat_mult)
  have 3: "(maxChan data i = 0 \<longrightarrow>
                 satOf data i = Some 0
                 \<and> jsdiv (maxChan data i - minChan data i) (maxChan data i) = None)
            \<and> (maxChan data i \<noteq> 0 \<longrightarrow>
                 satOf data i = Some ((maxChan data i - minChan data i) / maxChan data i))
            \<and> (\<exists>s. satOf data i = Some s \<and> 0 \<le> s \<and> s \<le> 1)" for i
    using satValue_bounds [of data i]
    by (simp add: satOf_eq) (simp add: satValue_def jsdiv_def)
  show ?thesis
    using interior_pos [OF assms(1,2)] N 1 2 3 by blast
qed

text \<open>
  The 3 by 3 buffer with one red pixel, a file of 2048 bytes, and the sums 18 and 9, whose
  variance over 9 pixels would be -3.
\<close>

theorem extractor_total_witness:
  "(3::nat) \<le> 3 \<and> length redDot = 4 * (3 * 3)
   \<and> 1 \<le> (int 3 - 2) * (int 3 - 2)
   \<and> satOf redDot 0 = Some 1
   \<and> satOf redDot 1 = Some 0
   \<and> stdOf 18 9 (3 * 3) = Some 0
   \<and> (\<exists>fs. extractFeatures redDot 3 3 \<lparr>size_f = 2048\<rparr> = Some fs
            \<and> 0 \<le> lapAvg fs \<and> 0 \<le> avgStd fs \<and> 0 \<le> avgSat fs \<and> 0 \<le> sizeKB fs)"
proof -
  have l: "length redDot = 4 * (3 * 3)" by (simp add: redDot_length)
  have "(3::nat) \<le> 3" by simp
  note t = extractor_total [OF this this l, of "\<lparr>size_f = 2048\<rparr>"]
  have "maxChan redDot 0 \<noteq> 0 \<longrightarrow>
          satOf redDot 0 = Some ((maxChan redDot 0 - minChan redDot 0) / maxChan redDot 0)"
    using t by blast
  then have "satOf redDot 0 = Some 1"
    by (simp add: redDot_chan)
  moreover have "maxChan redDot 1 = 0 \<longrightarrow> satOf redDot 1 = Some 0"
    using t by blast
  then have "satOf redDot 1 = Some 0"
    using redDot_chan(3) by blast
  moreover have "stdOf 18 9 (3 * 3) = Some 0"
  proof -
    have "(9::real) / real (3 * 3) - (18 / real (3 * 3)) * (18 / real (3 * 3)) < 0" by simp
    with t show ?thesis by blast
  qed
  ultimately show ?thesis using t l by auto
qed



subsection \<open>The combination\<close>

text \<open>
  C1. For every bitmap whose working buffer the canvas delivers with four bytes for each
  pixel, every file length and every state of the generator, \<^verbatim>\<open>computeScoreFromBitmap\<close>
  returns a score, the score is \<open>clamp(score + jitter, 0, 100)\<close>, and it lies between 0
  and 100.
\<close>

theorem score_within_0_100:
  assumes "workingDims imgBitmap = (w, h)"
    and "canvasData cv imgBitmap w h = Inr data"
    and "length data = 4 * (w * h)"
  shows "\<exists>fs. extractFeatures data w h f = Some fs
           \<and> fst (computeScoreFromBitmap cv imgBitmap f gen)
               = Inr (Some (clamp (score fs + jitter (gen 0)) 0 100))
           \<and> 0 \<le> clamp (score fs + jitter (gen 0)) 0 100
           \<and> clamp (score fs + jitter (gen 0)) 0 100 \<le> 100"
proof -
  obtain fs where fs: "extractFeatures data w h f = Some fs"
    using extractFeatures_total [OF assms(1)] by blast
  have "fst (computeScoreFromBitmap cv imgBitmap f gen) = Inr (Some (finalScore fs (gen 0)))"
    by (simp add: computeScore_Inr [OF assms(1,2)] fs)
  then show ?thesis
    using fs finalScore_bounds [of fs "gen 0"] by (auto simp: finalScore_def)
qed

text \<open>A 64 by 64 bitmap on the black canvas, with the draw 0.\<close>

theorem score_within_0_100_witness:
  "workingDims \<lparr>width = 64, height = 64\<rparr> = (64, 64)
   \<and> canvasData blackCanvas \<lparr>width = 64, height = 64\<rparr> 64 64
       = Inr (blackCanvas \<lparr>width = 64, height = 64\<rparr> 64 64)
   \<and> length (blackCanvas \<lparr>width = 64, height = 64\<rparr> 64 64) = 4 * (64 * 64)
   \<and> (\<exists>fs. extractFeatures (blackCanvas \<lparr>width = 64, height = 64\<rparr> 64 64) 64 64 \<lparr>size_f = 0\<rparr> = Some fs
           \<and> fst (computeScoreFromBitmap blackCanvas \<lparr>width = 64, height = 64\<rparr> \<lparr>size_f = 0\<rparr> drawsZero)
               = Inr (Some (clamp (score fs + jitter (drawsZero 0)) 0 100))
           \<and> 0 \<le> clamp (score fs + jitter (drawsZero 0)) 0 100
           \<and> clamp (score fs + jitter (drawsZero 0)) 0 100 \<le> 100)"
proof -
  have c: "canvasData blackCanvas \<lparr>width = 64, height = 64\<rparr> 64 64
       = Inr (blackCanvas \<lparr>width = 64, height = 64\<rparr> 64 64)"
    by (simp add: canvasData_def)
  note t = score_within_0_100 [where gen = drawsZero and f = "\<lparr>size_f = 0\<rparr>",
      OF dims64 c blackCanvas_length]
  show ?thesis
    using t dims64 c blackCanvas_length [of "\<lparr>width = 64, height = 64\<rparr>" 64 64] by blast
qed

text \<open>
  C9. For a draw \<open>U\<close> in \<open>[0, 1)\<close> the term added to the score before the clamp is
  \<open>(U - 0.5) \<times> 6\<close>, and it lies in \<open>[-3, 3]\<close>.
\<close>

theorem jitter_term:
  assumes "workingDims imgBitmap = (w, h)"
    and "canvasData cv imgBitmap w h = Inr data"
    and "0 \<le> gen 0" "gen 0 < 1"
  shows "fst (computeScoreFromBitmap cv imgBitmap f gen)
           = Inr (map_option (\<lambda>fs. clamp (score fs + (gen 0 - 0.5) * 6) 0 100)
                    (extractFeatures data w h f))
         \<and> jitter (gen 0) = (gen 0 - 0.5) * 6
         \<and> - 3 \<le> (gen 0 - 0.5) * 6 \<and> (gen 0 - 0.5) * 6 \<le> 3"
  using jitter_range [OF assms(3,4)]
  by (simp add: computeScore_Inr [OF assms(1,2)] finalScore_def jitter_def)

text \<open>The draw 0 gives the jitter -3.\<close>

theorem jitter_term_witness:
  "workingDims \<lparr>width = 64, height = 64\<rparr> = (64, 64)
   \<and> canvasData blackCanvas \<lparr>width = 64, height = 64\<rparr> 64 64
       = Inr (blackCanvas \<lparr>width = 64, height = 64\<rparr> 64 64)
   \<and> 0 \<le> drawsZero 0 \<and> drawsZero 0 < 1
   \<and> fst (computeScoreFromBitmap blackCanvas \<lparr>width = 64, height = 64\<rparr> \<lparr>size_f = 0\<rparr> drawsZero)
       = Inr (map_option (\<lambda>fs. clamp (score fs + (drawsZero 0 - 0.5) * 6) 0 100)
           (extractFeatures (blackCanvas \<lparr>width = 64, height = 64\<rparr> 64 64) 64 64 \<lparr>size_f = 0\<rparr>))
   \<and> jitter (drawsZero 0) = - 3"
proof -
  have c: "canvasData blackCanvas \<lparr>width = 64, height = 64\<rparr> 64 64
       = Inr (blackCanvas \<lparr>width = 64, height = 64\<rparr> 64 64)"
    by (simp add: canvasData_def)
  have d: "0 \<le> drawsZero 0" "drawsZero 0 < 1" by (simp_all add: draws_defs)
  note t = jitter_term [where f = "\<lparr>size_f = 0\<rparr>" and gen = drawsZero, OF dims64 c d]
  have "jitter (drawsZero 0) = - 3" by (simp add: jitter_def draws_defs)
  then show ?thesis using t dims64 c d by blast
qed

text \<open>
  C10. With the draw fixed and the three other features equal, the final score does not
  increase when the edge energy, the channel deviation or the file length grows, and
  does not decrease when the saturation grows.
\<close>

theorem combined_score_monotone:
  "(e \<le> e' \<longrightarrow>
      finalScore \<lparr>lapAvg = e', avgStd = s, avgSat = t, sizeKB = real n / 1024\<rparr> rnd
        \<le> finalScore \<lparr>lapAvg = e, avgStd = s, avgSat = t, sizeKB = real n / 1024\<rparr> rnd)
   \<and> (s \<le> s' \<longrightarrow>
      finalScore \<lparr>lapAvg = e, avgStd = s', avgSat = t, sizeKB = real n / 1024\<rparr> rnd
        \<le> finalScore \<lparr>lapAvg = e, avgStd = s, avgSat = t, sizeKB = real n / 1024\<rparr> rnd)
   \<and> (n \<le> n' \<longrightarrow>
      finalScore \<lparr>lapAvg = e, avgStd = s, avgSat = t, sizeKB = real n' / 1024\<rparr> rnd
        \<le> finalScore \<lparr>lapAvg = e, avgStd = s, avgSat = t, sizeKB = real n / 1024\<rparr> rnd)
   \<and> (t \<le> t' \<longrightarrow>
      finalScore \<lparr>lapAvg = e, avgStd = s, avgSat = t, sizeKB = real n / 1024\<rparr> rnd
        \<le> finalScore \<lparr>lapAvg = e, avgStd = s, avgSat = t', sizeKB = real n / 1024\<rparr> rnd)"
proof (intro conjI impI)
  assume "e \<le> e'"
  then show "finalScore \<lparr>lapAvg = e', avgStd = s, avgSat = t, sizeKB = real n / 1024\<rparr> rnd
        \<le> finalScore \<lparr>lapAvg = e, avgStd = s, avgSat = t, sizeKB = real n / 1024\<rparr> rnd"
    by (intro finalScore_mono lapNorm_antimono)
       (simp_all add: stdNorm_def satNorm_def sizeNorm_def)
next
  assume "s \<le> s'"
  then show "finalScore \<lparr>lapAvg = e, avgStd = s', avgSat = t, sizeKB = real n / 1024\<rparr> rnd
        \<le> finalScore \<lparr>lapAvg = e, avgStd = s, avgSat = t, sizeKB = real n / 1024\<rparr> rnd"
    by (intro finalScore_mono stdNorm_antimono)
       (simp_all add: lapNorm_def satNorm_def sizeNorm_def)
next
  assume "n \<le> n'"
  then show "finalScore \<lparr>lapAvg = e, avgStd = s, avgSat = t, sizeKB = real n' / 1024\<rparr> rnd
        \<le> finalScore \<lparr>lapAvg = e, avgStd = s, avgSat = t, sizeKB = real n / 1024\<rparr> rnd"
    by (intro finalScore_mono sizeNorm_antimono)
       (simp_all add: lapNorm_def satNorm_def stdNorm_def)
next
  assume "t \<le> t'"
  then show "finalScore \<lparr>lapAvg = e, avgStd = s, avgSat = t, sizeKB = real n / 1024\<rparr> rnd
        \<le> finalScore \<lparr>lapAvg = e, avgStd = s, avgSat = t', sizeKB = real n / 1024\<rparr> rnd"
    by (intro finalScore_mono satNorm_mono)
       (simp_all add: lapNorm_def stdNorm_def sizeNorm_def)
qed

text \<open>From the features (75, 30, 1/2, 50 KB), which score 50, to 27.5, 42.5, 35 and 55.\<close>

theorem combined_score_monotone_witness:
  "(75::real) \<le> 150 \<and> (30::real) \<le> 60 \<and> (51200::nat) \<le> 102400 \<and> (1 / 2 ::real) \<le> 3 / 4
   \<and> finalScore \<lparr>lapAvg = 150, avgStd = 30, avgSat = 1 / 2, sizeKB = real 51200 / 1024\<rparr> (1 / 2)
       \<le> finalScore \<lparr>lapAvg = 75, avgStd = 30, avgSat = 1 / 2, sizeKB = real 51200 / 1024\<rparr> (1 / 2)
   \<and> finalScore \<lparr>lapAvg = 75, avgStd = 60, avgSat = 1 / 2, sizeKB = real 51200 / 1024\<rparr> (1 / 2)
       \<le> finalScore \<lparr>lapAvg = 75, avgStd = 30, avgSat = 1 / 2, sizeKB = real 51200 / 1024\<rparr> (1 / 2)
   \<and> finalScore \<lparr>lapAvg = 75, avgStd = 30, avgSat = 1 / 2, sizeKB = real 102400 / 1024\<rparr> (1 / 2)
       \<le> finalScore \<lparr>lapAvg = 75, avgStd = 30, avgSat = 1 / 2, sizeKB = real 51200 / 1024\<rparr> (1 / 2)
   \<and> finalScore \<lparr>lapAvg = 75, avgStd = 30, avgSat = 1 / 2, sizeKB = real 51200 / 1024\<rparr> (1 / 2)
       \<le> finalScore \<lparr>lapAvg = 75, avgStd = 30, avgSat = 3 / 4, sizeKB = real 51200 / 1024\<rparr> (1 / 2)"
  using combined_score_monotone [where e = 75 and e' = 150 and s = 30 and s' = 60 and n = 51200
      and n' = 102400 and t = "1 / 2" and t' = "3 / 4" and rnd = "1 / 2"]
  by simp

subsection \<open>Worked inputs\<close>

text \<open>
  C2. A uniform black working buffer (R = G = B = 0 in every pixel), a file of 0 bytes
  and jitter 0: the features are edge energy 0, channel deviation 0, saturation 0 and
  size 0 KB, the size term is 1, the score is exactly 90, and the verdict, whose
  comparison \<open>score \<ge> 90\<close> is inclusive, is "AI-generated".
\<close>

theorem uniform_black_scores_90:
  assumes "workingDims imgBitmap = (w, h)"
    and "canvasData cv imgBitmap w h = Inr data"
    and "uniformImage data (w * h) 0"
    and "size_f f = 0"
    and "jitter (gen 0) = 0"
  shows "extractFeatures data w h f
           = Some \<lparr>lapAvg = 0, avgStd = 0, avgSat = 0, sizeKB = 0\<rparr>
       \<and> sizeNorm \<lparr>lapAvg = 0, avgStd = 0, avgSat = 0, sizeKB = 0\<rparr> = 1
       \<and> score \<lparr>lapAvg = 0, avgStd = 0, avgSat = 0, sizeKB = 0\<rparr> = 90
       \<and> fst (computeScoreFromBitmap cv imgBitmap f gen) = Inr (Some 90)
       \<and> map_sum id (map_option verdict) (fst (computeScoreFromBitmap cv imgBitmap f gen))
           = Inr (Some ''AI-generated'')"
proof -
  note d = workingDims_ge3(5,6) [OF assms(1)]
  have e: "extractFeatures data w h f
           = Some \<lparr>lapAvg = 0, avgStd = 0, avgSat = 0, sizeKB = 0\<rparr>"
    using extractFeatures_uniform [OF d assms(3), of f] assms(4) by simp
  have n: "sizeNorm \<lparr>lapAvg = 0, avgStd = 0, avgSat = 0, sizeKB = 0\<rparr> = 1"
    by (simp add: sizeNorm_def clamp_def)
  have s: "score \<lparr>lapAvg = 0, avgStd = 0, avgSat = 0, sizeKB = 0\<rparr> = 90"
    by (simp add: norm_defs)
  have c: "fst (computeScoreFromBitmap cv imgBitmap f gen) = Inr (Some 90)"
    by (simp add: computeScore_Inr [OF assms(1,2)] e finalScore_no_jitter [OF assms(5)] s)
  show ?thesis
    using e n s c verdict_90 by simp
qed

text \<open>The black canvas for a 64 by 64 bitmap, with the draw 0.5.\<close>

theorem uniform_black_scores_90_witness:
  "workingDims \<lparr>width = 64, height = 64\<rparr> = (64, 64)
   \<and> canvasData blackCanvas \<lparr>width = 64, height = 64\<rparr> 64 64
       = Inr (blackCanvas \<lparr>width = 64, height = 64\<rparr> 64 64)
   \<and> uniformImage (blackCanvas \<lparr>width = 64, height = 64\<rparr> 64 64) (64 * 64) 0
   \<and> size_f \<lparr>size_f = 0\<rparr> = 0
   \<and> jitter (drawsHalf 0) = 0
   \<and> fst (computeScoreFromBitmap blackCanvas \<lparr>width = 64, height = 64\<rparr> \<lparr>size_f = 0\<rparr> drawsHalf)
       = Inr (Some 90)"
proof -
  have c: "canvasData blackCanvas \<lparr>width = 64, height = 64\<rparr> 64 64
       = Inr (blackCanvas \<lparr>width = 64, height = 64\<rparr> 64 64)"
    by (simp add: canvasData_def)
  have j: "jitter (drawsHalf 0) = 0" by (simp add: jitter_def draws_defs)
  have z: "size_f \<lparr>size_f = 0\<rparr> = 0" by simp
  note t = uniform_black_scores_90 [where gen = drawsHalf, OF dims64 c blackCanvas_uniform z j]
  show ?thesis
    using t dims64 c blackCanvas_uniform [of "\<lparr>width = 64, height = 64\<rparr>" 64 64] z j by blast
qed

text \<open>
  C3. A uniform mid-gray working buffer (R = G = B = 128 in every pixel), a file of
  10240 bytes and jitter 0: the normalised features are 1, 1, 0 and 0.9, the weighted sum
  is 0.885, the score is exactly 88.5, and the verdict is "Likely real".
\<close>

theorem uniform_gray_scores_88_5:
  assumes "workingDims imgBitmap = (w, h)"
    and "canvasData cv imgBitmap w h = Inr data"
    and "uniformImage data (w * h) 128"
    and "size_f f = 10240"
    and "jitter (gen 0) = 0"
  shows "extractFeatures data w h f
           = Some \<lparr>lapAvg = 0, avgStd = 0, avgSat = 0, sizeKB = 10\<rparr>
       \<and> lapNorm \<lparr>lapAvg = 0, avgStd = 0, avgSat = 0, sizeKB = 10\<rparr> = 1
       \<and> stdNorm \<lparr>lapAvg = 0, avgStd = 0, avgSat = 0, sizeKB = 10\<rparr> = 1
       \<and> satNorm \<lparr>lapAvg = 0, avgStd = 0, avgSat = 0, sizeKB = 10\<rparr> = 0
       \<and> sizeNorm \<lparr>lapAvg = 0, avgStd = 0, avgSat = 0, sizeKB = 10\<rparr> = 0.9
       \<and> score \<lparr>lapAvg = 0, avgStd = 0, avgSat = 0, sizeKB = 10\<rparr> = 0.885 * 100
       \<and> fst (computeScoreFromBitmap cv imgBitmap f gen) = Inr (Some 88.5)
       \<and> map_sum id (map_option verdict) (fst (computeScoreFromBitmap cv imgBitmap f gen))
           = Inr (Some ''Likely real'')"
proof -
  note d = workingDims_ge3(5,6) [OF assms(1)]
  let ?fs = "\<lparr>lapAvg = 0, avgStd = 0, avgSat = 0, sizeKB = 10\<rparr>"
  have e: "extractFeatures data w h f = Some ?fs"
    using extractFeatures_uniform [OF d assms(3), of f] assms(4) by simp
  have n: "lapNorm ?fs = 1" "stdNorm ?fs = 1" "satNorm ?fs = 0" "sizeNorm ?fs = 0.9"
    by (simp_all add: lapNorm_def stdNorm_def satNorm_def sizeNorm_def clamp_def)
  have s: "score ?fs = 0.885 * 100"
    by (simp add: score_def n)
  have c: "fst (computeScoreFromBitmap cv imgBitmap f gen) = Inr (Some 88.5)"
    by (simp add: computeScore_Inr [OF assms(1,2)] e finalScore_no_jitter [OF assms(5)] s)
  have v: "verdict 88.5 = ''Likely real''" by (simp add: verdict_def)
  show ?thesis
    using e n s c v by simp
qed

text \<open>The gray canvas for a 64 by 64 bitmap, with the draw 0.5.\<close>

theorem uniform_gray_scores_88_5_witness:
  "workingDims \<lparr>width = 64, height = 64\<rparr> = (64, 64)
   \<and> canvasData grayCanvas \<lparr>width = 64, height = 64\<rparr> 64 64
       = Inr (grayCanvas \<lparr>width = 64, height = 64\<rparr> 64 64)
   \<and> uniformImage (grayCanvas \<lparr>width = 64, height = 64\<rparr> 64 64) (64 * 64) 128
   \<and> size_f \<lparr>size_f = 10240\<rparr> = 10240
   \<and> jitter (drawsHalf 0) = 0
   \<and> fst (computeScoreFromBitmap grayCanvas \<lparr>width = 64, height = 64\<rparr> \<lparr>size_f = 10240\<rparr> drawsHalf)
       = Inr (Some 88.5)"
proof -
  have c: "canvasData grayCanvas \<lparr>width = 64, height = 64\<rparr> 64 64
       = Inr (grayCanvas \<lparr>width = 64, height = 64\<rparr> 64 64)"
    by (simp add: canvasData_def)
  have j: "jitter (drawsHalf 0) = 0" by (simp add: jitter_def draws_defs)
  have z: "size_f \<lparr>size_f = 10240\<rparr> = 10240" by simp
  note t = uniform_gray_scores_88_5 [where gen = drawsHalf, OF dims64 c grayCanvas_uniform z j]
  show ?thesis
    using t dims64 c grayCanvas_uniform [of "\<lparr>width = 64, height = 64\<rparr>" 64 64] z j by blast
qed

end
